theory Spec2Isabelle
  imports Complex_Main "HOL-Library.Sublist" "HOL-Library.Log_Nat"
begin

section \<open>Input documents\<close>

text \<open>
  Both scripts read JSON documents from the working directory. A document is absent
  (\<open>fs.existsSync\<close> is false), present but rejected by \<open>JSON.parse\<close>, or parsed.
  A parsed document has the shape the scripts read: every field they test with
  \<open>||\<close> or \<open>!\<close> is optional (\<open>None\<close> is JavaScript's \<open>undefined\<close>).
\<close>

datatype 'a json_file = Absent | Unparseable | Parsed 'a

text \<open>An entry of \<open>trusted-packages.json\<close>: the scripts read \<open>name\<close> and \<open>reason\<close>.\<close>

record trust_entry =
  name :: "string option"
  reason :: "string option"

text \<open>\<open>trusted-packages.json\<close>: the fields \<open>packages\<close> and \<open>lastReviewed\<close>.\<close>

record trust_policy =
  tp_packages :: "trust_entry list option"
  tp_lastReviewed :: "string option"

text \<open>A value of the lockfile's \<open>packages\<close> object: only \<open>integrity\<close> is read.\<close>

record lock_entry =
  integrity :: "string option"

text \<open>
  \<open>package-lock.json\<close>: the \<open>packages\<close> object as the list of its key/value pairs in
  the order in which \<open>Object.keys\<close> and \<open>Object.entries\<close> enumerate them.
\<close>

record lockfile =
  packages :: "(string \<times> lock_entry) list option"

text \<open>How a process ends: \<open>process.exit(n)\<close>, or an exception nobody catches.\<close>

datatype outcome = Exit nat | Uncaught

section \<open>run-trusted-scripts.js\<close>

text \<open>\<open>loadTrustedPackages\<close>: a missing file is \<open>process.exit(1)\<close>; \<open>JSON.parse\<close> is not
  guarded; the result is \<open>config.packages || []\<close>.\<close>

definition loadTrustedPackages :: "trust_policy json_file \<Rightarrow> outcome + trust_entry list" where
  "loadTrustedPackages f =
     (case f of
        Absent \<Rightarrow> Inl (Exit 1)
      | Unparseable \<Rightarrow> Inl Uncaught
      | Parsed config \<Rightarrow> Inr (case tp_packages config of None \<Rightarrow> [] | Some ps \<Rightarrow> ps))"

text \<open>\<open>getInstalledPackages\<close>: a missing lockfile is the empty list; otherwise the keys
  of \<open>lock.packages || {}\<close> other than the empty key.\<close>

definition getInstalledPackages :: "lockfile json_file \<Rightarrow> outcome + string list" where
  "getInstalledPackages f =
     (case f of
        Absent \<Rightarrow> Inr []
      | Unparseable \<Rightarrow> Inl Uncaught
      | Parsed lock \<Rightarrow>
          Inr (filter (\<lambda>k. k \<noteq> [])
                 (map fst (case packages lock of None \<Rightarrow> [] | Some ps \<Rightarrow> ps))))"

text \<open>\<open>pkgPath.replace(/^node_modules\//, '')\<close>: one leading \<open>node_modules/\<close> is removed.\<close>

definition stripNodeModules :: "string \<Rightarrow> string" where
  "stripNodeModules pkgPath =
     (if prefix ''node_modules/'' pkgPath then drop 13 pkgPath else pkgPath)"

text \<open>
  The test of one entry \<open>t\<close> inside \<open>some\<close>:
  \<open>pkgName === t.name || pkgName.startsWith(t.name + '/')\<close>. When \<open>t.name\<close> is
  \<open>undefined\<close> the comparison is false and \<open>t.name + '/'\<close> is the string
  \<open>undefined/\<close>.
\<close>

definition matchesEntry :: "string \<Rightarrow> trust_entry \<Rightarrow> bool" where
  "matchesEntry pkgName t =
     (case name t of
        Some n \<Rightarrow> pkgName = n \<or> prefix (n @ ''/'') pkgName
      | None \<Rightarrow> prefix ''undefined/'' pkgName)"

definition matchesTrusted :: "string \<Rightarrow> trust_entry list \<Rightarrow> bool" where
  "matchesTrusted pkgPath trustedList =
     list_ex (matchesEntry (stripNodeModules pkgPath)) trustedList"

text \<open>
  \<open>npm rebuild <pkg>\<close> is an external command: \<open>rebuild pkg w\<close> gives whether it
  succeeded (\<open>execSync\<close> throws on a non-zero exit and on the timeout) and the state
  \<open>w\<close> of the outside world after it. The loop over \<open>toRebuild\<close> records every
  invocation with its result and stops with \<open>process.exit(1)\<close> at the first failure.
\<close>

fun rebuildLoop ::
  "(string \<Rightarrow> 'w \<Rightarrow> bool \<times> 'w) \<Rightarrow> string list \<Rightarrow> 'w \<Rightarrow> outcome \<times> (string \<times> bool) list" where
  "rebuildLoop rebuild [] w = (Exit 0, [])"
| "rebuildLoop rebuild (pkg # rest) w =
     (case rebuild pkg w of
        (True, w') \<Rightarrow>
          (case rebuildLoop rebuild rest w' of (out, calls) \<Rightarrow> (out, (pkg, True) # calls))
      | (False, w') \<Rightarrow> (Exit 1, [(pkg, False)]))"

text \<open>The list \<open>toRebuild\<close> that \<open>main\<close> collects from the installed keys.\<close>

definition toRebuild :: "trust_entry list \<Rightarrow> string list \<Rightarrow> string list" where
  "toRebuild trusted installed =
     map stripNodeModules (filter (\<lambda>pkgPath. matchesTrusted pkgPath trusted) installed)"

text \<open>\<open>main\<close> of the script runner: how the process ends and the rebuild invocations made.\<close>

definition run_trusted_main ::
  "(string \<Rightarrow> 'w \<Rightarrow> bool \<times> 'w) \<Rightarrow> 'w \<Rightarrow> trust_policy json_file \<Rightarrow> lockfile json_file
     \<Rightarrow> outcome \<times> (string \<times> bool) list" where
  "run_trusted_main rebuild w trustFile lockFile =
     (case loadTrustedPackages trustFile of
        Inl out \<Rightarrow> (out, [])
      | Inr trusted \<Rightarrow>
          (case getInstalledPackages lockFile of
             Inl out \<Rightarrow> (out, [])
           | Inr installed \<Rightarrow>
               (if toRebuild trusted installed = [] then (Exit 0, [])
                else rebuildLoop rebuild (toRebuild trusted installed) w)))"

section \<open>The verifier's report\<close>

text \<open>
  Every check of the verifier returns a boolean and prints diagnostics. The model keeps,
  in order, the calls to \<open>ok\<close>, \<open>warn\<close> and \<open>fail\<close> (\<open>logSuccess\<close>, \<open>logWarning\<close>
  and \<open>logError\<close> in \<open>scripts/verify-packages.js\<close>), without their text; plain \<open>log\<close>
  lines and section headers are not recorded.
\<close>

datatype msg = Ok | Warn | Fail

text \<open>JavaScript truthiness of an optional string: defined and not empty.\<close>

definition truthy :: "string option \<Rightarrow> bool" where
  "truthy v = (case v of None \<Rightarrow> False | Some s \<Rightarrow> s \<noteq> [])"

section \<open>JavaScript numbers\<close>

text \<open>
  The coverage rate is computed in IEEE double arithmetic. The values that occur are
  not negative and far inside the exponent range, so a finite double is a rational
  with a significand of 53 bits, and every operation rounds its exact result to the
  nearest such rational, ties to the even significand.
\<close>

text \<open>Rounding to the nearest integer, ties to even.\<close>

definition rne :: "rat \<Rightarrow> int" where
  "rne x =
     (let f = \<lfloor>x\<rfloor>; r = x - of_int f
      in if r < 1/2 then f else if 1/2 < r then f + 1 else if even f then f else f + 1)"

text \<open>The binary exponent of a positive rational: \<open>2 powi expo q \<le> q < 2 powi (expo q + 1)\<close>.\<close>

definition expo :: "rat \<Rightarrow> int" where
  "expo q =
     (case quotient_of q of (a, b) \<Rightarrow>
        let k = bitlen a - bitlen b in if 2 powi k \<le> q then k else k - 1)"

text \<open>The double nearest to a rational that is not negative.\<close>

definition fl :: "rat \<Rightarrow> rat" where
  "fl q =
     (if q \<le> 0 then 0
      else 2 powi (expo q - 52) * of_int (rne (q / 2 powi (expo q - 52))))"

datatype number = NaN | Infinity | Finite rat

text \<open>
  \<open>a / b\<close> on two counters (integers, exact as doubles below \<open>2 ^ 53\<close>): \<open>0 / 0\<close> is
  \<open>NaN\<close>, \<open>a / 0\<close> is \<open>Infinity\<close>, otherwise the quotient is rounded.
\<close>

definition js_div :: "nat \<Rightarrow> nat \<Rightarrow> number" where
  "js_div a b =
     (if b = 0 then (if a = 0 then NaN else Infinity)
      else Finite (fl (of_nat a / of_nat b)))"

text \<open>\<open>x * 100\<close>.\<close>

definition js_times100 :: "number \<Rightarrow> number" where
  "js_times100 x =
     (case x of NaN \<Rightarrow> NaN | Infinity \<Rightarrow> Infinity | Finite q \<Rightarrow> Finite (fl (q * 100)))"

text \<open>
  \<open>x.toFixed(1)\<close> writes the decimal \<open>n / 10\<close> for the integer \<open>n\<close> with \<open>n / 10\<close>
  closest to \<open>x\<close>, the larger \<open>n\<close> on a tie; \<open>NaN\<close> and \<open>Infinity\<close> are written by
  name. The string is kept as the number it denotes.
\<close>

definition toFixed1 :: "number \<Rightarrow> number" where
  "toFixed1 x =
     (case x of NaN \<Rightarrow> NaN | Infinity \<Rightarrow> Infinity
      | Finite q \<Rightarrow> Finite (of_int \<lfloor>10 * q + 1/2\<rfloor> / 10))"

text \<open>
  \<open>rate >= 95\<close> on the string \<open>rate\<close>: the string is converted to the nearest double
  and compared; \<open>NaN\<close> compares false.
\<close>

definition ge95 :: "number \<Rightarrow> bool" where
  "ge95 rate = (case rate of NaN \<Rightarrow> False | Infinity \<Rightarrow> True | Finite d \<Rightarrow> 95 \<le> fl d)"

section \<open>Integrity check\<close>

text \<open>
  The loop over \<open>Object.entries(pkgs)\<close> with its counters \<open>total\<close>, \<open>withHash\<close>,
  \<open>sha512\<close> and the list \<open>missing\<close>.
\<close>

fun countEntries ::
  "(string \<times> lock_entry) list \<Rightarrow> nat \<times> nat \<times> nat \<times> string list
     \<Rightarrow> nat \<times> nat \<times> nat \<times> string list" where
  "countEntries [] acc = acc"
| "countEntries ((name', pkg) # rest) (total', withHash, sha512, missing) =
     (if name' = [] then countEntries rest (total', withHash, sha512, missing)
      else if truthy (integrity pkg) then
        countEntries rest
          (total' + 1, withHash + 1,
           (if prefix ''sha512-'' (the (integrity pkg)) then sha512 + 1 else sha512),
           missing)
      else countEntries rest (total' + 1, withHash, sha512, missing @ [name']))"

text \<open>The warnings about entries without a digest: a count, the first ten, a remainder.\<close>

definition missingReport :: "string list \<Rightarrow> msg list" where
  "missingReport missing =
     (if length missing > 0 then
        Warn # map (\<lambda>p. Warn) (take 10 missing) @ (if length missing > 10 then [Warn] else [])
      else [])"

text \<open>\<open>((withHash / total) * 100).toFixed(1)\<close>.\<close>

definition integrityRate :: "nat \<Rightarrow> nat \<Rightarrow> number" where
  "integrityRate withHash total' = toFixed1 (js_times100 (js_div withHash total'))"

text \<open>\<open>verifyIntegrity\<close> of the five-check verifier.\<close>

definition verifyIntegrity :: "lockfile json_file \<Rightarrow> bool \<times> msg list" where
  "verifyIntegrity f =
     (case f of
        Absent \<Rightarrow> (False, [Fail])
      | Unparseable \<Rightarrow> (False, [Fail])
      | Parsed lock \<Rightarrow>
          (case countEntries (case packages lock of None \<Rightarrow> [] | Some ps \<Rightarrow> ps) (0, 0, 0, []) of
             (total', withHash, sha512, missing) \<Rightarrow>
               (if withHash = total' then (True, missingReport missing @ [Ok])
                else if ge95 (integrityRate withHash total')
                  then (True, missingReport missing @ [Warn])
                else (False, missingReport missing @ [Fail]))))"

text \<open>\<open>verifyPackageLockIntegrity\<close> of \<open>scripts/verify-packages.js\<close>: the same
  decisions; a failure prints two error lines.\<close>

definition verifyPackageLockIntegrity :: "lockfile json_file \<Rightarrow> bool \<times> msg list" where
  "verifyPackageLockIntegrity f =
     (case f of
        Absent \<Rightarrow> (False, [Fail, Fail])
      | Unparseable \<Rightarrow> (False, [Fail])
      | Parsed lockfile \<Rightarrow>
          (case countEntries (case packages lockfile of None \<Rightarrow> [] | Some ps \<Rightarrow> ps) (0, 0, 0, []) of
             (totalPackages, packagesWithIntegrity, packagesWithSha512, missingIntegrity) \<Rightarrow>
               (if packagesWithIntegrity = totalPackages
                  then (True, missingReport missingIntegrity @ [Ok])
                else if ge95 (integrityRate packagesWithIntegrity totalPackages)
                  then (True, missingReport missingIntegrity @ [Warn])
                else (False, missingReport missingIntegrity @ [Fail, Fail]))))"

text \<open>The non-root entries of a lockfile and those of them that carry a digest.\<close>

definition nonRoot :: "lockfile \<Rightarrow> (string \<times> lock_entry) list" where
  "nonRoot lock =
     filter (\<lambda>e. fst e \<noteq> []) (case packages lock of None \<Rightarrow> [] | Some ps \<Rightarrow> ps)"

definition withDigest :: "lockfile \<Rightarrow> (string \<times> lock_entry) list" where
  "withDigest lock = filter (\<lambda>e. truthy (integrity (snd e))) (nonRoot lock)"

section \<open>Audit check\<close>

text \<open>
  The severity counts of \<open>npm audit --json\<close>: \<open>metadata.vulnerabilities\<close>, each
  count read with \<open>|| 0\<close>.
\<close>

record vulnerabilities =
  critical :: "int option"
  high :: "int option"
  moderate :: "int option"
  low :: "int option"
  info :: "int option"

text \<open>
  What \<open>execSync('npm audit --json ...')\<close> gives: it throws, or its output is not
  JSON, or it is JSON with \<open>metadata?.vulnerabilities\<close> possibly undefined.
\<close>

datatype audit_output = ExecError | NotJson | Json "vulnerabilities option"

definition orZero :: "int option \<Rightarrow> int" where
  "orZero c = (case c of None \<Rightarrow> 0 | Some n \<Rightarrow> n)"

definition emptyVulnerabilities :: vulnerabilities where
  "emptyVulnerabilities =
     \<lparr>critical = None, high = None, moderate = None, low = None, info = None\<rparr>"

text \<open>The three severity lines that are printed as error or warning when positive.\<close>

definition severityLines :: "int \<Rightarrow> int \<Rightarrow> int \<Rightarrow> msg list" where
  "severityLines c h m =
     (if c > 0 then [Fail] else []) @ (if h > 0 then [Fail] else [])
       @ (if m > 0 then [Warn] else [])"

text \<open>\<open>runAudit\<close> of the five-check verifier; \<open>standardOk\<close> is whether the fallback
  \<open>npm audit --audit-level=high\<close> exits with zero.\<close>

definition runAudit :: "audit_output \<Rightarrow> bool \<Rightarrow> bool \<times> msg list" where
  "runAudit out standardOk =
     (case out of
        ExecError \<Rightarrow> (False, [Fail])
      | NotJson \<Rightarrow> (if standardOk then (True, [Warn, Ok]) else (False, [Warn, Fail]))
      | Json vs \<Rightarrow>
          (let v = (case vs of None \<Rightarrow> emptyVulnerabilities | Some x \<Rightarrow> x);
               critical' = orZero (critical v);
               high' = orZero (high v);
               moderate' = orZero (moderate v)
           in if critical' > 0 \<or> high' > 0
                then (False, severityLines critical' high' moderate' @ [Fail])
              else if moderate' > 0
                then (True, severityLines critical' high' moderate' @ [Warn])
              else (True, severityLines critical' high' moderate' @ [Ok])))"

text \<open>\<open>runSecurityAudit\<close> of \<open>scripts/verify-packages.js\<close>: the same decisions; it also
  reads \<open>low\<close> and \<open>info\<close>, and prints two lines where the other prints one.\<close>

definition runSecurityAudit :: "audit_output \<Rightarrow> bool \<Rightarrow> bool \<times> msg list" where
  "runSecurityAudit output standardOk =
     (case output of
        ExecError \<Rightarrow> (False, [Fail])
      | NotJson \<Rightarrow> (if standardOk then (True, [Warn, Warn, Ok]) else (False, [Warn, Warn, Fail]))
      | Json vs \<Rightarrow>
          (let v = (case vs of None \<Rightarrow> emptyVulnerabilities | Some x \<Rightarrow> x);
               critical' = orZero (critical v);
               high' = orZero (high v);
               moderate' = orZero (moderate v);
               low' = orZero (low v);
               info' = orZero (info v)
           in if critical' > 0 \<or> high' > 0
                then (False, severityLines critical' high' moderate' @ [Fail, Fail])
              else if moderate' > 0
                then (True, severityLines critical' high' moderate' @ [Warn])
              else (True, severityLines critical' high' moderate' @ [Ok])))"

section \<open>Signature-support check\<close>

text \<open>
  \<open>npm --version\<close> throws, or prints a version whose first two components, after
  \<open>Number\<close>, are \<open>maj\<close> and \<open>min\<close> (\<open>None\<close> for \<open>NaN\<close> and for a missing component).
\<close>

datatype npm_version = VersionError | Version "int option" "int option"

text \<open>\<open>maj > 8 || (maj === 8 && min >= 15)\<close>; a comparison with \<open>NaN\<close> is false.\<close>

definition supportsSignatures :: "int option \<Rightarrow> int option \<Rightarrow> bool" where
  "supportsSignatures maj min' =
     (case maj of
        None \<Rightarrow> False
      | Some a \<Rightarrow> a > 8 \<or> (a = 8 \<and> (case min' of None \<Rightarrow> False | Some b \<Rightarrow> b \<ge> 15)))"

text \<open>\<open>verifySignatures\<close>; \<open>signaturesOk\<close> is whether \<open>npm audit signatures\<close> succeeds.\<close>

definition verifySignatures :: "npm_version \<Rightarrow> bool \<Rightarrow> bool \<times> msg list" where
  "verifySignatures ver signaturesOk =
     (case ver of
        VersionError \<Rightarrow> (True, [Warn])
      | Version maj min' \<Rightarrow>
          (if supportsSignatures maj min'
             then (True, Ok # (if signaturesOk then [Ok] else [Warn]))
           else (True, [Warn])))"

text \<open>\<open>verifySignatureSupport\<close> of \<open>scripts/verify-packages.js\<close>.\<close>

definition verifySignatureSupport :: "npm_version \<Rightarrow> bool \<Rightarrow> bool \<times> msg list" where
  "verifySignatureSupport npmVersion signaturesOk =
     (case npmVersion of
        VersionError \<Rightarrow> (True, [Warn])
      | Version major minor \<Rightarrow>
          (if supportsSignatures major minor
             then (True, Ok # (if signaturesOk then [Ok] else [Warn]))
           else (True, [Warn, Warn])))"

section \<open>Configuration check\<close>

text \<open>\<open>content.includes(key)\<close>: \<open>key\<close> occurs in \<open>content\<close> as a contiguous substring.\<close>

fun js_includes :: "string \<Rightarrow> string \<Rightarrow> bool" where
  "js_includes [] key = (key = [])"
| "js_includes (c # cs) key = (prefix key (c # cs) \<or> js_includes cs key)"

text \<open>\<open>s.split('=')[0]\<close>: the text before the first \<open>=\<close>.\<close>

definition settingKey :: "string \<Rightarrow> string" where
  "settingKey s = takeWhile (\<lambda>c. c \<noteq> CHR ''='') s"

text \<open>The loop over the required settings with its flag.\<close>

fun requiredLoop :: "string \<Rightarrow> string list \<Rightarrow> bool \<Rightarrow> bool \<times> msg list" where
  "requiredLoop content [] allGood = (allGood, [])"
| "requiredLoop content (s # rest) allGood =
     (if js_includes content (settingKey s)
        then (case requiredLoop content rest allGood of (b, l) \<Rightarrow> (b, Ok # l))
      else (case requiredLoop content rest False of (b, l) \<Rightarrow> (b, Warn # l)))"

text \<open>The loop over the recommended settings: it only prints.\<close>

definition recommendedLoop :: "string \<Rightarrow> string list \<Rightarrow> msg list" where
  "recommendedLoop content ss =
     map (\<lambda>s. if js_includes content (settingKey s) then Ok else Warn) ss"

definition required :: "string list" where
  "required = [''ignore-scripts=true'', ''audit-level'', ''package-lock=true'', ''strict-ssl=true'']"

definition recommended :: "string list" where
  "recommended =
     [''save-exact=true'', ''engine-strict=true'', ''prefer-offline=true'', ''optional=false'']"

text \<open>\<open>verifyNpmrc\<close> of the five-check verifier; \<open>None\<close> is a missing \<open>.npmrc\<close>.\<close>

definition verifyNpmrc :: "string option \<Rightarrow> bool \<times> msg list" where
  "verifyNpmrc f =
     (case f of
        None \<Rightarrow> (True, [Warn])
      | Some content \<Rightarrow>
          (case requiredLoop content required True of
             (allGood, l) \<Rightarrow> (allGood, l @ recommendedLoop content recommended)))"

definition requiredSettings :: "string list" where
  "requiredSettings = [''audit-level'', ''package-lock=true'', ''strict-ssl=true'']"

definition recommendedSettings :: "string list" where
  "recommendedSettings = [''save-exact=true'', ''engine-strict=true'', ''prefer-offline=true'']"

text \<open>\<open>verifyNpmrcConfiguration\<close> of \<open>scripts/verify-packages.js\<close>.\<close>

definition verifyNpmrcConfiguration :: "string option \<Rightarrow> bool \<times> msg list" where
  "verifyNpmrcConfiguration f =
     (case f of
        None \<Rightarrow> (True, [Warn, Warn])
      | Some npmrc \<Rightarrow>
          (case requiredLoop npmrc requiredSettings True of
             (allRequired, l) \<Rightarrow> (allRequired, l @ recommendedLoop npmrc recommendedSettings)))"

section \<open>Trust-policy check\<close>

text \<open>
  \<open>Math.floor((now - reviewed) / (1000 * 60 * 60 * 24))\<close> on two times in
  milliseconds; \<open>None\<close> is the \<open>NaN\<close> of an invalid date.
\<close>

definition daysSince :: "int \<Rightarrow> int option \<Rightarrow> int option" where
  "daysSince now reviewed =
     (case reviewed of None \<Rightarrow> None | Some r \<Rightarrow> Some ((now - r) div (1000 * 60 * 60 * 24)))"

text \<open>The line printed for one entry: \<open>!p.name || !p.reason\<close> is a warning.\<close>

definition entryLine :: "trust_entry \<Rightarrow> msg" where
  "entryLine p = (if \<not> truthy (name p) \<or> \<not> truthy (reason p) then Warn else Ok)"

text \<open>The line about the review date, printed when \<open>cfg.lastReviewed\<close> is truthy.\<close>

definition reviewLine :: "int \<Rightarrow> (string \<Rightarrow> int option) \<Rightarrow> string option \<Rightarrow> msg list" where
  "reviewLine now parseDate lastReviewed =
     (if truthy lastReviewed then
        (case daysSince now (parseDate (the lastReviewed)) of
           None \<Rightarrow> [Ok]
         | Some d \<Rightarrow> (if d > 90 then [Warn] else [Ok]))
      else [])"

text \<open>
  \<open>verifyTrustedPackages\<close>; \<open>now\<close> is the clock in milliseconds and \<open>parseDate\<close>
  is \<open>new Date(string)\<close>.
\<close>

definition verifyTrustedPackages ::
  "trust_policy json_file \<Rightarrow> int \<Rightarrow> (string \<Rightarrow> int option) \<Rightarrow> bool \<times> msg list" where
  "verifyTrustedPackages f now parseDate =
     (case f of
        Absent \<Rightarrow> (True, [Warn])
      | Unparseable \<Rightarrow> (False, [Fail])
      | Parsed cfg \<Rightarrow>
          (let pkgs = (case tp_packages cfg of None \<Rightarrow> [] | Some ps \<Rightarrow> ps)
           in if length pkgs = 0 then (True, [Warn])
              else (True, Ok # map entryLine pkgs @ reviewLine now parseDate (tp_lastReviewed cfg))))"

section \<open>The verifier's main\<close>

text \<open>Everything outside the process that a run of the verifier reads.\<close>

record environment =
  npmrcFile :: "string option"
  lockFile :: "lockfile json_file"
  auditOutput :: audit_output
  auditStandardOk :: bool
  npmVersion :: npm_version
  signaturesOk :: bool
  trustFile :: "trust_policy json_file"
  clock :: int
  dateOf :: "string \<Rightarrow> int option"

text \<open>The summary: one line per entry of \<open>results\<close>, then the closing line.\<close>

definition summary :: "bool list \<Rightarrow> msg list" where
  "summary results =
     map (\<lambda>v. if v then Ok else Fail) results @ [if list_all id results then Ok else Fail]"

definition exitCode :: "bool list \<Rightarrow> outcome" where
  "exitCode results = Exit (if list_all id results then 0 else 1)"

text \<open>
  The five check results of the five-check verifier, in the order in which \<open>main\<close>
  evaluates them and in which \<open>Object.values(results)\<close> lists them.
\<close>

definition verify_checks :: "environment \<Rightarrow> (bool \<times> msg list) list" where
  "verify_checks env =
     [verifyNpmrc (npmrcFile env),
      verifyIntegrity (lockFile env),
      runAudit (auditOutput env) (auditStandardOk env),
      verifySignatures (npmVersion env) (signaturesOk env),
      verifyTrustedPackages (trustFile env) (clock env) (dateOf env)]"

text \<open>\<open>main\<close> of the five-check verifier: the exit and the whole report.\<close>

definition verify_main :: "environment \<Rightarrow> outcome \<times> msg list" where
  "verify_main env =
     (exitCode (map fst (verify_checks env)),
      concat (map snd (verify_checks env)) @ summary (map fst (verify_checks env)))"

text \<open>
  \<open>main\<close> of \<open>scripts/verify-packages.js\<close> runs four checks, the configuration check
  first, and stores them in an object whose keys are \<open>integrity\<close>, \<open>audit\<close>,
  \<open>signatures\<close>, \<open>npmrc\<close>, the order of the summary.
\<close>

definition verify_packages_main :: "environment \<Rightarrow> outcome \<times> msg list" where
  "verify_packages_main env =
     (let npmrc = verifyNpmrcConfiguration (npmrcFile env);
          integrity' = verifyPackageLockIntegrity (lockFile env);
          audit = runSecurityAudit (auditOutput env) (auditStandardOk env);
          signatures = verifySignatureSupport (npmVersion env) (signaturesOk env);
          results = [fst integrity', fst audit, fst signatures, fst npmrc]
      in (exitCode results,
          snd npmrc @ snd integrity' @ snd audit @ snd signatures @ summary results))"

section \<open>Notions used to state the properties\<close>

text \<open>The entries of a parsed trust policy and the non-root keys of a parsed lockfile.\<close>

definition policyEntries :: "trust_policy \<Rightarrow> trust_entry list" where
  "policyEntries cfg = (case tp_packages cfg of None \<Rightarrow> [] | Some ps \<Rightarrow> ps)"

definition nonRootKeys :: "lockfile \<Rightarrow> string list" where
  "nonRootKeys lock = map fst (nonRoot lock)"

text \<open>
  The names of the non-root installed packages that match some trust entry, in the
  order of the lockfile's package mapping.
\<close>

definition matchingPackages :: "trust_policy \<Rightarrow> lockfile \<Rightarrow> string list" where
  "matchingPackages cfg lock =
     map stripNodeModules
       (filter (\<lambda>k. matchesTrusted k (policyEntries cfg)) (nonRootKeys lock))"

text \<open>A rebuild command that fails for one package name and succeeds for every other.\<close>

definition rebuildUnless :: "string \<Rightarrow> string \<Rightarrow> unit \<Rightarrow> bool \<times> unit" where
  "rebuildUnless bad pkg w = (pkg \<noteq> bad, w)"

text \<open>A trust policy that lists \<open>esbuild\<close> and \<open>sharp\<close>, and a lockfile that installs both.\<close>

definition policy2 :: trust_policy where
  "policy2 =
     \<lparr>tp_packages = Some [\<lparr>name = Some ''esbuild'', reason = Some ''binary''\<rparr>,
                          \<lparr>name = Some ''sharp'', reason = Some ''native''\<rparr>],
      tp_lastReviewed = Some ''2025-02-17''\<rparr>"

definition lock3 :: lockfile where
  "lock3 =
     \<lparr>packages = Some [([], \<lparr>integrity = None\<rparr>),
                       (''node_modules/esbuild'', \<lparr>integrity = Some ''sha512-a''\<rparr>),
                       (''node_modules/left-pad'', \<lparr>integrity = Some ''sha512-b''\<rparr>),
                       (''node_modules/sharp'', \<lparr>integrity = Some ''sha512-c''\<rparr>)]\<rparr>"

text \<open>The keys of the non-root entries without a digest, the list \<open>missing\<close> of the loop.\<close>

definition missingOf :: "lockfile \<Rightarrow> string list" where
  "missingOf lock = map fst (filter (\<lambda>e. \<not> truthy (integrity (snd e))) (nonRoot lock))"

text \<open>
  A lockfile with the root entry and \<open>n\<close> packages with the distinct keys \<open>p\<close>,
  \<open>pp\<close>, \<open>ppp\<close>, ..., of which the first \<open>k\<close> carry a digest.
\<close>

definition lockfileOf :: "nat \<Rightarrow> nat \<Rightarrow> lockfile" where
  "lockfileOf n k =
     \<lparr>packages = Some (([], \<lparr>integrity = None\<rparr>) #
        map (\<lambda>i. (replicate (Suc i) CHR ''p'',
                  \<lparr>integrity = (if i < k then Some ''sha512-x'' else None)\<rparr>)) [0..<n])\<rparr>"

text \<open>An audit result with all five severity counts present.\<close>

definition vulnerabilitiesOf :: "int \<Rightarrow> int \<Rightarrow> int \<Rightarrow> int \<Rightarrow> int \<Rightarrow> vulnerabilities" where
  "vulnerabilitiesOf c h m l i =
     \<lparr>critical = Some c, high = Some h, moderate = Some m, low = Some l, info = Some i\<rparr>"

text \<open>
  A \<open>.npmrc\<close> with the three settings that \<open>scripts/verify-packages.js\<close> requires, and
  the same file with \<open>ignore-scripts=true\<close> in front.
\<close>

definition npmrcV1 :: string where
  "npmrcV1 = ''audit-level=moderate'' @ [CHR 0x0A] @ ''package-lock=true'' @ [CHR 0x0A]
       @ ''strict-ssl=true'' @ [CHR 0x0A]"

definition npmrcV2 :: string where
  "npmrcV2 = ''ignore-scripts=true'' @ [CHR 0x0A] @ npmrcV1"

text \<open>A date parser that knows one day, with its time in milliseconds.\<close>

definition parseDay :: "string \<Rightarrow> int option" where
  "parseDay s = (if s = ''2025-02-17'' then Some 1739750400000 else None)"

text \<open>A trust policy whose entries lack a name or a reason.\<close>

definition policyIncomplete :: trust_policy where
  "policyIncomplete =
     \<lparr>tp_packages = Some [\<lparr>name = None, reason = Some ''binary''\<rparr>,
                          \<lparr>name = Some ''sharp'', reason = None\<rparr>],
      tp_lastReviewed = Some ''2025-02-17''\<rparr>"

text \<open>
  An environment without lockfile: the configuration is complete, the audit finds
  nothing, the trust policy was reviewed 120 days before the clock.
\<close>

definition env0 :: environment where
  "env0 =
     \<lparr>npmrcFile = Some npmrcV2, lockFile = Absent, auditOutput = Json None,
      auditStandardOk = True, npmVersion = Version (Some 10) (Some 2), signaturesOk = False,
      trustFile = Parsed policyIncomplete, clock = 1750122000000, dateOf = parseDay\<rparr>"

section \<open>Properties of the script runner\<close>

lemma matchesEntry_named:
  "name t = Some n \<Longrightarrow> matchesEntry p t \<longleftrightarrow> (p = n \<or> prefix (n @ ''/'') p)"
  by (simp add: matchesEntry_def)

lemma matchesTrusted_named:
  assumes "list_all (\<lambda>t. name t \<noteq> None) trusted"
  shows "matchesTrusted pkgPath trusted \<longleftrightarrow>
     (\<exists>t \<in> set trusted. \<exists>n. name t = Some n \<and>
        (stripNodeModules pkgPath = n \<or> prefix (n @ ''/'') (stripNodeModules pkgPath)))"
proof -
  have "matchesEntry p t \<longleftrightarrow> (\<exists>n. name t = Some n \<and> (p = n \<or> prefix (n @ ''/'') p))"
    if "t \<in> set trusted" for t p
  proof -
    from assms that obtain n where "name t = Some n" by (auto simp: list_all_iff)
    then show ?thesis by (simp add: matchesEntry_named)
  qed
  then show ?thesis by (simp add: matchesTrusted_def list_ex_iff)
qed

lemma rebuildLoop_calls:
  "rebuildLoop rebuild ps w = (out, calls) \<Longrightarrow>
     prefix (map fst calls) ps \<and>
     (list_all snd calls \<longrightarrow> map fst calls = ps \<and> out = Exit 0) \<and>
     (\<not> list_all snd calls \<longrightarrow>
        out = Exit 1 \<and> calls \<noteq> [] \<and> list_all snd (butlast calls) \<and> \<not> snd (last calls))"
proof (induction ps arbitrary: w out calls)
  case Nil
  then show ?case by simp
next
  case (Cons p ps)
  obtain ok w' where r: "rebuild p w = (ok, w')" by (cases "rebuild p w")
  show ?case
  proof (cases ok)
    case False
    with Cons.prems r show ?thesis by auto
  next
    case True
    obtain out' calls' where l: "rebuildLoop rebuild ps w' = (out', calls')"
      by (cases "rebuildLoop rebuild ps w'")
    from Cons.prems r True l have e: "out = out'" "calls = (p, True) # calls'" by auto
    from Cons.IH[OF l] e show ?thesis by (cases calls') auto
  qed
qed

lemma toRebuild_matchingPackages:
  "loadTrustedPackages (Parsed cfg) = Inr (policyEntries cfg)"
  "getInstalledPackages (Parsed lock) = Inr (nonRootKeys lock)"
  "toRebuild (policyEntries cfg) (nonRootKeys lock) = matchingPackages cfg lock"
  by (simp_all add: loadTrustedPackages_def getInstalledPackages_def policyEntries_def
      nonRootKeys_def nonRoot_def toRebuild_def matchingPackages_def filter_map comp_def)

lemma run_trusted_main_parsed:
  "run_trusted_main rebuild w (Parsed cfg) (Parsed lock) =
     rebuildLoop rebuild (matchingPackages cfg lock) w"
  by (simp add: run_trusted_main_def toRebuild_matchingPackages)

lemma run_trusted_main_loaded:
  "loadTrustedPackages tf = Inr trusted \<Longrightarrow> getInstalledPackages lf = Inr installed \<Longrightarrow>
     run_trusted_main rebuild w tf lf = rebuildLoop rebuild (toRebuild trusted installed) w"
  by (simp add: run_trusted_main_def)

lemma run_trusted_main_calls:
  assumes "run_trusted_main rebuild w tf lf = (out, calls)"
  shows "calls = [] \<or> (\<exists>ps. rebuildLoop rebuild ps w = (out, calls))"
  using assms
  by (auto simp: run_trusted_main_def split: sum.splits if_splits)

lemma matchingPackages_example: "matchingPackages policy2 lock3 = [''esbuild'', ''sharp'']"
  by (simp add: matchingPackages_def policyEntries_def nonRootKeys_def nonRoot_def policy2_def
      lock3_def matchesTrusted_def matchesEntry_def stripNodeModules_def)

text \<open>
  C1. An installed key matches a trust list exactly when its package name (the key
  without one leading \<open>node_modules/\<close>) matches some entry of the list, and it matches
  an entry that has a name exactly when it equals that name or starts with that name
  followed by \<open>/\<close>; so for a list whose entries all have a name, a key matches exactly
  when its package name equals the name of some entry or starts with it followed by
  \<open>/\<close>. The name \<open>foo-bar\<close> does not match an entry \<open>foo\<close>, \<open>@scope/esbuild\<close>
  does not match an entry \<open>esbuild\<close>, and \<open>esbuild\<close> does.
\<close>

theorem matchesTrusted_exact_or_path_prefix:
  "(matchesTrusted pkgPath trusted \<longleftrightarrow>
      (\<exists>t \<in> set trusted. matchesEntry (stripNodeModules pkgPath) t))
   \<and> (name t = Some n \<longrightarrow>
        (matchesEntry pkgName t \<longleftrightarrow> pkgName = n \<or> prefix (n @ ''/'') pkgName))
   \<and> (list_all (\<lambda>t. name t \<noteq> None) trusted \<longrightarrow>
      (matchesTrusted pkgPath trusted \<longleftrightarrow>
         (\<exists>t \<in> set trusted. \<exists>n. name t = Some n \<and>
            (stripNodeModules pkgPath = n \<or> prefix (n @ ''/'') (stripNodeModules pkgPath)))))
   \<and> \<not> matchesTrusted ''node_modules/foo-bar'' [\<lparr>name = Some ''foo'', reason = r\<rparr>]
   \<and> \<not> matchesTrusted ''node_modules/@scope/esbuild'' [\<lparr>name = Some ''esbuild'', reason = r\<rparr>]
   \<and> matchesTrusted ''node_modules/esbuild'' [\<lparr>name = Some ''esbuild'', reason = r\<rparr>]"
proof -
  have "matchesTrusted pkgPath trusted \<longleftrightarrow>
      (\<exists>t \<in> set trusted. matchesEntry (stripNodeModules pkgPath) t)"
    by (simp add: matchesTrusted_def list_ex_iff)
  moreover
  have "\<not> matchesTrusted ''node_modules/foo-bar'' [\<lparr>name = Some ''foo'', reason = r\<rparr>]"
    by (simp add: matchesTrusted_def matchesEntry_def stripNodeModules_def)
  moreover
  have "\<not> matchesTrusted ''node_modules/@scope/esbuild'' [\<lparr>name = Some ''esbuild'', reason = r\<rparr>]"
    by (simp add: matchesTrusted_def matchesEntry_def stripNodeModules_def)
  moreover
  have "matchesTrusted ''node_modules/esbuild'' [\<lparr>name = Some ''esbuild'', reason = r\<rparr>]"
    by (simp add: matchesTrusted_def matchesEntry_def stripNodeModules_def)
  ultimately show ?thesis
    using matchesTrusted_named[of trusted pkgPath] matchesEntry_named[of t n pkgName] by blast
qed

theorem matchesTrusted_exact_or_path_prefix_witness:
  "list_all (\<lambda>t. name t \<noteq> None) (policyEntries policy2)
   \<and> name \<lparr>name = Some ''sharp'', reason = Some ''native''\<rparr> = Some ''sharp''
   \<and> matchesEntry ''sharp/vendor'' \<lparr>name = Some ''sharp'', reason = Some ''native''\<rparr>
   \<and> matchesTrusted ''node_modules/sharp/vendor'' (policyEntries policy2)
   \<and> \<not> matchesTrusted ''node_modules/sharper'' (policyEntries policy2)"
proof -
  have named: "list_all (\<lambda>t. name t \<noteq> None) (policyEntries policy2)"
    by (simp add: policyEntries_def policy2_def)
  have a: "matchesEntry ''sharp/vendor'' \<lparr>name = Some ''sharp'', reason = Some ''native''\<rparr>"
    using matchesTrusted_exact_or_path_prefix[where pkgName = "''sharp/vendor''"
        and t = "\<lparr>name = Some ''sharp'', reason = Some ''native''\<rparr>" and n = "''sharp''"]
    by simp
  have rule: "matchesTrusted pkgPath (policyEntries policy2) \<longleftrightarrow>
         (\<exists>t \<in> set (policyEntries policy2). \<exists>n. name t = Some n \<and>
            (stripNodeModules pkgPath = n \<or> prefix (n @ ''/'') (stripNodeModules pkgPath)))"
    for pkgPath
    using matchesTrusted_exact_or_path_prefix[where trusted = "policyEntries policy2"
        and pkgPath = pkgPath] named
    by blast
  have b: "matchesTrusted ''node_modules/sharp/vendor'' (policyEntries policy2)"
    by (simp add: rule) (simp add: policyEntries_def policy2_def stripNodeModules_def)
  have c: "\<not> matchesTrusted ''node_modules/sharper'' (policyEntries policy2)"
    by (simp add: rule) (simp add: policyEntries_def policy2_def stripNodeModules_def)
  from named a b c show ?thesis by simp
qed

text \<open>
  C4. When \<open>trusted-packages.json\<close> is absent the runner exits with status 1 and
  invokes no rebuild, whatever the lockfile and the rebuild command are.
\<close>

theorem absent_policy_exits_1_without_rebuild:
  "run_trusted_main rebuild w Absent lf = (Exit 1, [])"
  by (simp add: run_trusted_main_def loadTrustedPackages_def)




text \<open>
  C3. In every run in which some rebuild invocation fails the runner exits with
  status 1, and the failing invocation is the last one: all invocations before it
  succeeded and none follows. When the trust policy was parsed and the lockfile is
  absent or parsed, the runner exits 0 if every invoked rebuild succeeds, and it exits
  0 without any invocation if no installed package matches.
\<close>

theorem failure_aborts_with_exit_1:
  assumes "run_trusted_main rebuild w tf lf = (out, calls)"
  shows "(\<not> list_all snd calls \<longrightarrow>
            out = Exit 1 \<and> calls \<noteq> [] \<and> list_all snd (butlast calls) \<and> \<not> snd (last calls))
     \<and> ((\<exists>cfg. tf = Parsed cfg) \<and> lf \<noteq> Unparseable \<and> list_all snd calls \<longrightarrow> out = Exit 0)
     \<and> (tf = Parsed cfg \<and> lf = Parsed lock \<and> matchingPackages cfg lock = []
           \<longrightarrow> out = Exit 0 \<and> calls = [])"
proof -
  have a: "out = Exit 1 \<and> calls \<noteq> [] \<and> list_all snd (butlast calls) \<and> \<not> snd (last calls)"
    if "\<not> list_all snd calls"
  proof -
    from that have "calls \<noteq> []" by auto
    with run_trusted_main_calls[OF assms] obtain ps where
      "rebuildLoop rebuild ps w = (out, calls)" by auto
    from rebuildLoop_calls[OF this] that show ?thesis by simp
  qed
  have b: "out = Exit 0" if "tf = Parsed cfg'" "lf \<noteq> Unparseable" "list_all snd calls" for cfg'
  proof -
    from that obtain installed where "getInstalledPackages lf = Inr installed"
      by (cases lf) (simp_all add: getInstalledPackages_def)
    with that assms
    have "rebuildLoop rebuild (toRebuild (policyEntries cfg') installed) w = (out, calls)"
      by (simp add: run_trusted_main_loaded toRebuild_matchingPackages)
    from rebuildLoop_calls[OF this] that show ?thesis by simp
  qed
  have c: "out = Exit 0 \<and> calls = []"
    if "tf = Parsed cfg" "lf = Parsed lock" "matchingPackages cfg lock = []"
    using assms that by (simp add: run_trusted_main_parsed)
  from a b c show ?thesis by blast
qed

theorem failure_aborts_with_exit_1_witness:
  "run_trusted_main (rebuildUnless ''esbuild'') () (Parsed policy2) (Parsed lock3)
       = (Exit 1, [(''esbuild'', False)])
   \<and> \<not> list_all snd [(''esbuild'', False)]
   \<and> run_trusted_main (rebuildUnless ''left-pad'') () (Parsed policy2) (Parsed lock3)
     = (Exit 0, [(''esbuild'', True), (''sharp'', True)])
   \<and> list_all snd [(''esbuild'', True), (''sharp'', True)]"
proof -
  have run1: "run_trusted_main (rebuildUnless ''esbuild'') () (Parsed policy2) (Parsed lock3)
       = (Exit 1, [(''esbuild'', False)])"
    by (simp add: run_trusted_main_parsed matchingPackages_example rebuildUnless_def)
  have run2: "run_trusted_main (rebuildUnless ''left-pad'') () (Parsed policy2) (Parsed lock3)
     = (Exit 0, [(''esbuild'', True), (''sharp'', True)])"
    by (simp add: run_trusted_main_parsed matchingPackages_example rebuildUnless_def)
  from failure_aborts_with_exit_1[OF run1] failure_aborts_with_exit_1[OF run2] run1 run2
  show ?thesis by simp
qed

section \<open>Properties of the rounding\<close>

lemma rne_floor: "\<lfloor>x\<rfloor> \<le> rne x" "rne x \<le> \<lfloor>x\<rfloor> + 1"
  by (simp_all add: rne_def Let_def)

lemma rne_of_int: "rne (of_int n) = n"
  by (simp add: rne_def)

lemma rne_mono:
  assumes "x \<le> y"
  shows "rne x \<le> rne y"
proof (cases "\<lfloor>x\<rfloor> = \<lfloor>y\<rfloor>")
  case True
  with assms have "x - of_int \<lfloor>x\<rfloor> \<le> y - of_int \<lfloor>y\<rfloor>" by simp
  with True show ?thesis by (auto simp: rne_def Let_def)
next
  case False
  with assms have "\<lfloor>x\<rfloor> + 1 \<le> \<lfloor>y\<rfloor>"
    using floor_mono[OF assms] by linarith
  with rne_floor(2)[of x] rne_floor(1)[of y] show ?thesis by linarith
qed

lemma expo_bounds:
  assumes "0 < q"
  shows "2 powi expo q \<le> q" "q < 2 powi (expo q + 1)"
proof -
  obtain a b where ab: "quotient_of q = (a, b)" by (cases "quotient_of q")
  then have b: "0 < b" and q: "q = of_int a / of_int b"
    using quotient_of_denom_pos quotient_of_div by blast+
  with assms have a: "0 < a" by (simp add: zero_less_divide_iff)
  define k where "k = bitlen a - bitlen b"
  have la: "1 \<le> bitlen a" and lb: "1 \<le> bitlen b"
    using a b by (simp_all add: bitlen_alt_def)
  have pw: "(2::rat) powi n = of_int (2 ^ nat n)" if "0 \<le> n" for n
    using that by (simp add: power_int_nonneg_exp)
  from bitlen_bounds[OF a] la
  have pa: "(2::rat) powi (bitlen a - 1) \<le> of_int a" "of_int a < (2::rat) powi bitlen a"
    unfolding pw[of "bitlen a - 1", OF diff_ge_0_iff_ge[THEN iffD2, OF la]] pw[of "bitlen a", OF order_trans[OF zero_le_one la]]
    by (simp_all only: of_int_le_iff of_int_less_iff)
  from bitlen_bounds[OF b] lb
  have pb: "(2::rat) powi (bitlen b - 1) \<le> of_int b" "of_int b < (2::rat) powi bitlen b"
    unfolding pw[of "bitlen b - 1", OF diff_ge_0_iff_ge[THEN iffD2, OF lb]] pw[of "bitlen b", OF order_trans[OF zero_le_one lb]]
    by (simp_all only: of_int_le_iff of_int_less_iff)
  have b': "(0::rat) < of_int b" using b by simp
  have "of_int a < (2::rat) powi (k + 1) * 2 powi (bitlen b - 1)"
    using pa(2) by (simp add: k_def flip: power_int_add)
  also have "\<dots> \<le> 2 powi (k + 1) * of_int b"
    using pb(1) by (simp add: mult_left_mono)
  finally have up: "q < 2 powi (k + 1)"
    using b' by (simp add: q pos_divide_less_eq)
  have "(2::rat) powi (k - 1) * of_int b < 2 powi (k - 1) * 2 powi bitlen b"
    using pb(2) by (simp add: mult_strict_left_mono)
  also have "\<dots> = 2 powi (bitlen a - 1)"
    by (simp add: k_def flip: power_int_add)
  also note pa(1)
  finally have lo: "2 powi (k - 1) < q"
    using b' by (simp add: q pos_less_divide_eq)
  have e: "expo q = (if 2 powi k \<le> q then k else k - 1)"
    by (simp add: expo_def ab k_def Let_def)
  show "2 powi expo q \<le> q"
    using lo by (simp add: e)
  show "q < 2 powi (expo q + 1)"
    using up by (auto simp: e not_le)
qed

lemma expo_mono:
  assumes "0 < p" "p \<le> q"
  shows "expo p \<le> expo q"
proof (rule ccontr)
  assume "\<not> expo p \<le> expo q"
  then have "expo q + 1 \<le> expo p" by simp
  then have "(2::rat) powi (expo q + 1) \<le> 2 powi expo p"
    by (simp add: power_int_increasing)
  also have "\<dots> \<le> p" using assms(1) by (rule expo_bounds)
  also note assms(2)
  also have "q < 2 powi (expo q + 1)" using assms by (intro expo_bounds) simp
  finally show False by simp
qed

lemma scaled_bounds:
  assumes "0 < q"
  shows "2 ^ 52 \<le> q / 2 powi (expo q - 52)" "q / 2 powi (expo q - 52) < 2 ^ 53"
proof -
  have u: "(0::rat) < 2 powi (expo q - 52)" by simp
  have "(2::rat) ^ 52 * 2 powi (expo q - 52) = 2 powi expo q"
    using power_int_add[of "2::rat" 52 "expo q - 52"] by simp
  with expo_bounds(1)[OF assms] show "2 ^ 52 \<le> q / 2 powi (expo q - 52)"
    using u by (simp add: pos_le_divide_eq)
  have "(2::rat) ^ 53 * 2 powi (expo q - 52) = 2 powi (expo q + 1)"
    using power_int_add[of "2::rat" 53 "expo q - 52"] by (simp add: add.commute)
  with expo_bounds(2)[OF assms] show "q / 2 powi (expo q - 52) < 2 ^ 53"
    using u by (simp add: pos_divide_less_eq)
qed

lemma fl_bounds:
  assumes "0 < q"
  shows "2 powi expo q \<le> fl q" "fl q \<le> 2 powi (expo q + 1)"
proof -
  have u: "(0::rat) < 2 powi (expo q - 52)" by simp
  have "rne (of_int (2 ^ 52)) \<le> rne (q / 2 powi (expo q - 52))"
    using scaled_bounds(1)[OF assms] by (intro rne_mono) simp
  then have lo: "(2::rat) ^ 52 \<le> of_int (rne (q / 2 powi (expo q - 52)))"
    unfolding rne_of_int by (metis of_int_le_iff of_int_numeral of_int_power)
  have "rne (q / 2 powi (expo q - 52)) \<le> rne (of_int (2 ^ 53))"
    using scaled_bounds(2)[OF assms] by (intro rne_mono) simp
  then have hi: "of_int (rne (q / 2 powi (expo q - 52))) \<le> (2::rat) ^ 53"
    unfolding rne_of_int by (metis of_int_le_iff of_int_numeral of_int_power)
  have e1: "2 powi (expo q - 52) * (2::rat) ^ 52 = 2 powi expo q"
    using power_int_add[of "2::rat" "expo q - 52" 52] by simp
  have e2: "2 powi (expo q - 52) * (2::rat) ^ 53 = 2 powi (expo q + 1)"
    using power_int_add[of "2::rat" "expo q - 52" 53] by (simp add: add.commute)
  from assms have f: "fl q = 2 powi (expo q - 52) * of_int (rne (q / 2 powi (expo q - 52)))"
    by (simp add: fl_def)
  show "2 powi expo q \<le> fl q"
    unfolding f e1[symmetric] using lo u by (intro mult_left_mono) simp_all
  show "fl q \<le> 2 powi (expo q + 1)"
    unfolding f e2[symmetric] using hi u by (intro mult_left_mono) simp_all
qed

lemma fl_nonneg: "0 \<le> fl q"
proof (cases "q \<le> 0")
  case True
  then show ?thesis by (simp add: fl_def)
next
  case False
  then have "0 < q" by simp
  from fl_bounds(1)[OF this] show ?thesis
    by (rule order_trans[rotated]) simp
qed

lemma fl_mono:
  assumes "p \<le> q"
  shows "fl p \<le> fl q"
proof (cases "p \<le> 0")
  case True
  then have "fl p = 0" by (simp add: fl_def)
  with fl_nonneg[of q] show ?thesis by simp
next
  case False
  then have p: "0 < p" and q: "0 < q" using assms by simp_all
  show ?thesis
  proof (cases "expo p = expo q")
    case True
    have "rne (p / 2 powi (expo q - 52)) \<le> rne (q / 2 powi (expo q - 52))"
      using assms by (intro rne_mono divide_right_mono) simp_all
    then have "(of_int (rne (p / 2 powi (expo q - 52))) :: rat)
        \<le> of_int (rne (q / 2 powi (expo q - 52)))" by simp
    then show ?thesis
      using p q True by (simp add: fl_def mult_left_mono)
  next
    case False
    with expo_mono[OF p assms] have "expo p + 1 \<le> expo q" by simp
    then have "(2::rat) powi (expo p + 1) \<le> 2 powi expo q"
      by (simp add: power_int_increasing)
    with fl_bounds(2)[OF p] fl_bounds(1)[OF q] show ?thesis by linarith
  qed
qed

lemma rate_at_threshold: "9495 / 100 \<le> fl (fl (1899 / 2000) * 100)"
  by code_simp

lemma rate_below_threshold: "fl (fl (1899 / 2000 - 1 / (2000 * 2 ^ 40)) * 100) < 9495 / 100"
  by code_simp

lemma fl_95: "fl 95 = 95"
  by code_simp

lemma fl_949_tenths: "fl (949 / 10) < 95"
  by code_simp

section \<open>Properties of the integrity check\<close>

lemma ge95_integrityRate_high:
  assumes "0 < t" "1899 * t \<le> 2000 * w"
  shows "ge95 (integrityRate w t)"
proof -
  from assms have "(1899 / 2000 :: rat) \<le> of_nat w / of_nat t"
    by (simp add: pos_le_divide_eq)
  then have "fl (1899 / 2000) \<le> fl (of_nat w / of_nat t)" by (rule fl_mono)
  then have "fl (1899 / 2000) * 100 \<le> fl (of_nat w / of_nat t) * 100" by simp
  then have "fl (fl (1899 / 2000) * 100) \<le> fl (fl (of_nat w / of_nat t) * 100)"
    by (rule fl_mono)
  with rate_at_threshold have "9495 / 100 \<le> fl (fl (of_nat w / of_nat t) * 100)"
    by (rule order_trans)
  then have "(950::rat) \<le> 10 * fl (fl (of_nat w / of_nat t) * 100) + 1 / 2" by simp
  then have "950 \<le> \<lfloor>10 * fl (fl (of_nat w / of_nat t) * 100) + 1 / 2\<rfloor>"
    by (simp add: le_floor_iff)
  then have "(95::rat) \<le> of_int \<lfloor>10 * fl (fl (of_nat w / of_nat t) * 100) + 1 / 2\<rfloor> / 10"
    by (simp add: le_divide_eq)
  then have "fl 95 \<le> fl (of_int \<lfloor>10 * fl (fl (of_nat w / of_nat t) * 100) + 1 / 2\<rfloor> / 10)"
    by (rule fl_mono)
  with assms(1) show ?thesis
    by (simp add: ge95_def integrityRate_def toFixed1_def js_times100_def js_div_def fl_95)
qed

lemma ge95_integrityRate_low:
  assumes "0 < t" "t \<le> 2 ^ 40" "2000 * w < 1899 * t"
  shows "\<not> ge95 (integrityRate w t)"
proof -
  from assms(3) have "2000 * w + 1 \<le> 1899 * t" by simp
  then have "2000 * (of_nat w :: rat) + 1 \<le> 1899 * of_nat t"
    by (metis (mono_tags) of_nat_le_iff of_nat_mult of_nat_numeral of_nat_add of_nat_1)
  then have "(of_nat w :: rat) / of_nat t \<le> 1899 / 2000 - 1 / (2000 * of_nat t)"
    using assms(1) by (simp add: field_simps)
  also have "\<dots> \<le> 1899 / 2000 - 1 / (2000 * 2 ^ 40)"
  proof -
    from assms(2) have "(of_nat t :: rat) \<le> 2 ^ 40"
      by (metis of_nat_le_iff of_nat_numeral of_nat_power)
    with assms(1) have "1 / (2000 * 2 ^ 40) \<le> 1 / (2000 * (of_nat t :: rat))"
      by (intro divide_left_mono) simp_all
    then show ?thesis by simp
  qed
  finally have "fl (of_nat w / of_nat t) \<le> fl (1899 / 2000 - 1 / (2000 * 2 ^ 40))"
    by (rule fl_mono)
  then have "fl (of_nat w / of_nat t) * 100 \<le> fl (1899 / 2000 - 1 / (2000 * 2 ^ 40)) * 100"
    by simp
  then have "fl (fl (of_nat w / of_nat t) * 100) \<le> fl (fl (1899 / 2000 - 1 / (2000 * 2 ^ 40)) * 100)"
    by (rule fl_mono)
  with rate_below_threshold have "fl (fl (of_nat w / of_nat t) * 100) < 9495 / 100"
    by (rule le_less_trans[rotated])
  then have "10 * fl (fl (of_nat w / of_nat t) * 100) + 1 / 2 < 950" by simp
  then have "\<lfloor>10 * fl (fl (of_nat w / of_nat t) * 100) + 1 / 2\<rfloor> < 950"
    by (simp add: floor_less_iff)
  then have "\<lfloor>10 * fl (fl (of_nat w / of_nat t) * 100) + 1 / 2\<rfloor> \<le> 949" by simp
  then have "(of_int \<lfloor>10 * fl (fl (of_nat w / of_nat t) * 100) + 1 / 2\<rfloor> :: rat) \<le> 949"
    by (metis of_int_le_iff of_int_numeral)
  then have "(of_int \<lfloor>10 * fl (fl (of_nat w / of_nat t) * 100) + 1 / 2\<rfloor> :: rat) / 10 \<le> 949 / 10"
    by simp
  then have "fl (of_int \<lfloor>10 * fl (fl (of_nat w / of_nat t) * 100) + 1 / 2\<rfloor> / 10) \<le> fl (949 / 10)"
    by (rule fl_mono)
  with fl_949_tenths have "fl (of_int \<lfloor>10 * fl (fl (of_nat w / of_nat t) * 100) + 1 / 2\<rfloor> / 10) < 95"
    by (rule le_less_trans[rotated])
  with assms(1) show ?thesis
    by (simp add: ge95_def integrityRate_def toFixed1_def js_times100_def js_div_def)
qed


lemma countEntries_counts:
  "countEntries ps (t, h, s, m) =
     (t + length (filter (\<lambda>e. fst e \<noteq> []) ps),
      h + length (filter (\<lambda>e. fst e \<noteq> [] \<and> truthy (integrity (snd e))) ps),
      s + length (filter (\<lambda>e. fst e \<noteq> [] \<and> truthy (integrity (snd e))
                                \<and> prefix ''sha512-'' (the (integrity (snd e)))) ps),
      m @ map fst (filter (\<lambda>e. fst e \<noteq> [] \<and> \<not> truthy (integrity (snd e))) ps))"
proof (induction ps arbitrary: t h s m)
  case Nil
  show ?case by simp
next
  case (Cons e ps)
  obtain n p where e: "e = (n, p)" by (cases e)
  show ?case by (simp add: e Cons.IH)
qed

lemma missingOf_empty_iff:
  "missingOf lock = [] \<longleftrightarrow> length (withDigest lock) = length (nonRoot lock)"
proof -
  have "length (withDigest lock) + length (missingOf lock) = length (nonRoot lock)"
    unfolding withDigest_def missingOf_def length_map by (rule sum_length_filter_compl)
  then show ?thesis by auto
qed

lemma countEntries_lockfile:
  "countEntries (case packages lock of None \<Rightarrow> [] | Some ps \<Rightarrow> ps) (0, 0, 0, []) = (t, w, s, m)
     \<Longrightarrow> t = length (nonRoot lock) \<and> w = length (withDigest lock) \<and> m = missingOf lock"
  by (simp add: countEntries_counts nonRoot_def withDigest_def missingOf_def)

lemma verifyIntegrity_parsed:
  "verifyIntegrity (Parsed lock) =
     (if length (withDigest lock) = length (nonRoot lock) then (True, [Ok])
      else if ge95 (integrityRate (length (withDigest lock)) (length (nonRoot lock)))
        then (True, missingReport (missingOf lock) @ [Warn])
      else (False, missingReport (missingOf lock) @ [Fail]))"
proof -
  obtain t w s m where c:
    "countEntries (case packages lock of None \<Rightarrow> [] | Some ps \<Rightarrow> ps) (0, 0, 0, []) = (t, w, s, m)"
    by (metis prod_cases4)
  from countEntries_lockfile[OF c] missingOf_empty_iff[of lock] show ?thesis
    by (simp add: verifyIntegrity_def c missingReport_def)
qed

lemma verifyPackageLockIntegrity_parsed:
  "verifyPackageLockIntegrity (Parsed lock) =
     (if length (withDigest lock) = length (nonRoot lock) then (True, [Ok])
      else if ge95 (integrityRate (length (withDigest lock)) (length (nonRoot lock)))
        then (True, missingReport (missingOf lock) @ [Warn])
      else (False, missingReport (missingOf lock) @ [Fail, Fail]))"
proof -
  obtain t w s m where c:
    "countEntries (case packages lock of None \<Rightarrow> [] | Some ps \<Rightarrow> ps) (0, 0, 0, []) = (t, w, s, m)"
    by (metis prod_cases4)
  from countEntries_lockfile[OF c] missingOf_empty_iff[of lock] show ?thesis
    by (simp add: verifyPackageLockIntegrity_def c missingReport_def)
qed

lemma count_below: "length (filter (\<lambda>i. i < k) [0..<n]) = min n k"
  by (induction n) auto

lemma lockfileOf_counts:
  "length (nonRoot (lockfileOf n k)) = n"
  "length (withDigest (lockfileOf n k)) = min n k"
  by (simp_all add: nonRoot_def withDigest_def lockfileOf_def filter_map comp_def truthy_def
      count_below)

lemma ge95_at_94:
  assumes "0 < t" "100 * w = 94 * t"
  shows "\<not> ge95 (integrityRate w t)"
proof -
  from assms(2) have "100 * (of_nat w :: rat) = 94 * of_nat t"
    by (metis of_nat_mult of_nat_numeral)
  with assms(1) have q: "(of_nat w :: rat) / of_nat t = 47 / 50"
    by (simp add: field_simps)
  have "\<not> ge95 (toFixed1 (js_times100 (Finite (fl (47 / 50)))))"
    by code_simp
  with assms(1) show ?thesis
    by (simp add: integrityRate_def js_div_def q)
qed

lemma ge95_113_of_119: "ge95 (integrityRate 113 119)"
  by code_simp

text \<open>
  C5, as stated, fails below 95%: the rate is rounded to one decimal by \<open>toFixed(1)\<close>
  before it is compared with 95. A lockfile with 119 packages of which 113 carry a
  digest has a coverage of 94.96%, below 95%, and both integrity checks pass.
\<close>

theorem coverage_below_95_passes:
  "100 * length (withDigest (lockfileOf 119 113)) < 95 * length (nonRoot (lockfileOf 119 113))
   \<and> fst (verifyIntegrity (Parsed (lockfileOf 119 113)))
   \<and> fst (verifyPackageLockIntegrity (Parsed (lockfileOf 119 113)))"
  by (simp add: verifyIntegrity_parsed verifyPackageLockIntegrity_parsed lockfileOf_counts
      ge95_113_of_119)

text \<open>
  C5, amended. For a parsed lockfile with at least one non-root entry, both integrity
  checks pass without a warning when every non-root entry has a digest; pass with a
  final warning when not every entry has one and the coverage is at least 94.95%
  (the coverage that rounds to 95.0); fail when the coverage is below 94.95% (for
  lockfiles of at most \<open>2 ^ 40\<close> packages); fail at exactly 94% and pass with a
  warning at exactly 95%.
\<close>

theorem integrity_pass_threshold:
  assumes "nonRoot lock \<noteq> []"
  shows
    "(length (withDigest lock) = length (nonRoot lock) \<longrightarrow>
        verifyIntegrity (Parsed lock) = (True, [Ok])
        \<and> verifyPackageLockIntegrity (Parsed lock) = (True, [Ok]))
     \<and> (length (withDigest lock) < length (nonRoot lock)
          \<and> 1899 * length (nonRoot lock) \<le> 2000 * length (withDigest lock) \<longrightarrow>
        fst (verifyIntegrity (Parsed lock))
        \<and> last (snd (verifyIntegrity (Parsed lock))) = Warn
        \<and> fst (verifyPackageLockIntegrity (Parsed lock))
        \<and> last (snd (verifyPackageLockIntegrity (Parsed lock))) = Warn)
     \<and> (2000 * length (withDigest lock) < 1899 * length (nonRoot lock)
          \<and> length (nonRoot lock) \<le> 2 ^ 40 \<longrightarrow>
        \<not> fst (verifyIntegrity (Parsed lock))
        \<and> last (snd (verifyIntegrity (Parsed lock))) = Fail
        \<and> \<not> fst (verifyPackageLockIntegrity (Parsed lock))
        \<and> last (snd (verifyPackageLockIntegrity (Parsed lock))) = Fail)
     \<and> (100 * length (withDigest lock) = 94 * length (nonRoot lock) \<longrightarrow>
        \<not> fst (verifyIntegrity (Parsed lock))
        \<and> \<not> fst (verifyPackageLockIntegrity (Parsed lock)))
     \<and> (100 * length (withDigest lock) = 95 * length (nonRoot lock) \<longrightarrow>
        fst (verifyIntegrity (Parsed lock))
        \<and> last (snd (verifyIntegrity (Parsed lock))) = Warn
        \<and> fst (verifyPackageLockIntegrity (Parsed lock))
        \<and> last (snd (verifyPackageLockIntegrity (Parsed lock))) = Warn)"
proof -
  define t where "t = length (nonRoot lock)"
  define w where "w = length (withDigest lock)"
  from assms have t: "0 < t" by (simp add: t_def)
  have all: "verifyIntegrity (Parsed lock) = (True, [Ok])
      \<and> verifyPackageLockIntegrity (Parsed lock) = (True, [Ok])" if "w = t"
    using that by (simp add: verifyIntegrity_parsed verifyPackageLockIntegrity_parsed w_def t_def)
  have high: "fst (verifyIntegrity (Parsed lock))
        \<and> last (snd (verifyIntegrity (Parsed lock))) = Warn
        \<and> fst (verifyPackageLockIntegrity (Parsed lock))
        \<and> last (snd (verifyPackageLockIntegrity (Parsed lock))) = Warn"
    if "w < t" "1899 * t \<le> 2000 * w"
    using that ge95_integrityRate_high[OF t that(2)]
    by (simp add: verifyIntegrity_parsed verifyPackageLockIntegrity_parsed w_def t_def)
  have low: "\<not> fst (verifyIntegrity (Parsed lock))
        \<and> last (snd (verifyIntegrity (Parsed lock))) = Fail
        \<and> \<not> fst (verifyPackageLockIntegrity (Parsed lock))
        \<and> last (snd (verifyPackageLockIntegrity (Parsed lock))) = Fail"
    if "2000 * w < 1899 * t" "t \<le> 2 ^ 40"
  proof -
    from that(1) have "w \<noteq> t" by auto
    with ge95_integrityRate_low[OF t that(2) that(1)] show ?thesis
      by (simp add: verifyIntegrity_parsed verifyPackageLockIntegrity_parsed w_def t_def)
  qed
  have at94: "\<not> fst (verifyIntegrity (Parsed lock))
        \<and> \<not> fst (verifyPackageLockIntegrity (Parsed lock))" if "100 * w = 94 * t"
  proof -
    from that t have "w \<noteq> t" by auto
    with ge95_at_94[OF t that] show ?thesis
      by (simp add: verifyIntegrity_parsed verifyPackageLockIntegrity_parsed w_def t_def)
  qed
  have at95: "w < t \<and> 1899 * t \<le> 2000 * w" if "100 * w = 95 * t"
    using that t by auto
  from all high low at94 at95 show ?thesis
    unfolding w_def t_def by blast
qed

theorem integrity_pass_threshold_witness:
  "nonRoot (lockfileOf 20 19) \<noteq> []
   \<and> 100 * length (withDigest (lockfileOf 20 19)) = 95 * length (nonRoot (lockfileOf 20 19))
   \<and> fst (verifyIntegrity (Parsed (lockfileOf 20 19)))
   \<and> last (snd (verifyIntegrity (Parsed (lockfileOf 20 19)))) = Warn
   \<and> nonRoot (lockfileOf 50 47) \<noteq> []
   \<and> 100 * length (withDigest (lockfileOf 50 47)) = 94 * length (nonRoot (lockfileOf 50 47))
   \<and> length (nonRoot (lockfileOf 50 47)) \<le> 2 ^ 40
   \<and> \<not> fst (verifyIntegrity (Parsed (lockfileOf 50 47)))
   \<and> last (snd (verifyIntegrity (Parsed (lockfileOf 50 47)))) = Fail
   \<and> nonRoot (lockfileOf 3 3) \<noteq> []
   \<and> length (withDigest (lockfileOf 3 3)) = length (nonRoot (lockfileOf 3 3))
   \<and> verifyIntegrity (Parsed (lockfileOf 3 3)) = (True, [Ok])"
proof -
  have ne: "nonRoot (lockfileOf 20 19) \<noteq> []" "nonRoot (lockfileOf 50 47) \<noteq> []"
    "nonRoot (lockfileOf 3 3) \<noteq> []"
    using lockfileOf_counts(1)[of 20 19] lockfileOf_counts(1)[of 50 47]
      lockfileOf_counts(1)[of 3 3] by auto
  show ?thesis
    using ne integrity_pass_threshold[OF ne(1)] integrity_pass_threshold[OF ne(2)]
      integrity_pass_threshold[OF ne(3)]
    by (simp add: lockfileOf_counts)
qed

text \<open>
  C10. For a parsed lockfile without non-root entries (only the root entry, or no
  entry) both integrity checks pass, although the rate is \<open>0 / 0\<close>, that is \<open>NaN\<close>.
\<close>

theorem no_packages_passes:
  assumes "nonRoot lock = []"
  shows "verifyIntegrity (Parsed lock) = (True, [Ok])
     \<and> verifyPackageLockIntegrity (Parsed lock) = (True, [Ok])
     \<and> js_div (length (withDigest lock)) (length (nonRoot lock)) = NaN
     \<and> integrityRate (length (withDigest lock)) (length (nonRoot lock)) = NaN"
  using assms
  by (simp add: verifyIntegrity_parsed verifyPackageLockIntegrity_parsed withDigest_def
      js_div_def integrityRate_def js_times100_def toFixed1_def)

theorem no_packages_passes_witness:
  "nonRoot (lockfileOf 0 0) = []
   \<and> packages (lockfileOf 0 0) = Some [([], \<lparr>integrity = None\<rparr>)]
   \<and> verifyIntegrity (Parsed (lockfileOf 0 0)) = (True, [Ok])
   \<and> verifyPackageLockIntegrity (Parsed (lockfileOf 0 0)) = (True, [Ok])"
proof -
  have e: "nonRoot (lockfileOf 0 0) = []"
    by (simp add: nonRoot_def lockfileOf_def)
  from no_packages_passes[OF e] e show ?thesis
    by (simp add: lockfileOf_def)
qed

section \<open>Properties of the audit check\<close>

text \<open>
  C6. For a parsed audit result both audit checks fail exactly when the critical or the
  high count is positive; otherwise they pass, with a warning when the moderate count
  is positive and without one when it is not; the low and info counts do not change
  the boolean. A result without counts passes.
\<close>

theorem audit_policy:
  "(fst (runAudit (Json (Some v)) s)
      \<longleftrightarrow> \<not> (0 < orZero (critical v) \<or> 0 < orZero (high v)))
   \<and> (fst (runSecurityAudit (Json (Some v)) s)
      \<longleftrightarrow> \<not> (0 < orZero (critical v) \<or> 0 < orZero (high v)))
   \<and> (0 < orZero (critical v) \<or> 0 < orZero (high v) \<longrightarrow>
        last (snd (runAudit (Json (Some v)) s)) = Fail
        \<and> last (snd (runSecurityAudit (Json (Some v)) s)) = Fail)
   \<and> (\<not> 0 < orZero (critical v) \<and> \<not> 0 < orZero (high v) \<and> 0 < orZero (moderate v) \<longrightarrow>
        runAudit (Json (Some v)) s = (True, [Warn, Warn])
        \<and> runSecurityAudit (Json (Some v)) s = (True, [Warn, Warn]))
   \<and> (\<not> 0 < orZero (critical v) \<and> \<not> 0 < orZero (high v) \<and> \<not> 0 < orZero (moderate v) \<longrightarrow>
        runAudit (Json (Some v)) s = (True, [Ok])
        \<and> runSecurityAudit (Json (Some v)) s = (True, [Ok]))
   \<and> fst (runAudit (Json (Some (v\<lparr>low := l, info := i\<rparr>))) s)
        = fst (runAudit (Json (Some v)) s)
   \<and> fst (runSecurityAudit (Json (Some (v\<lparr>low := l, info := i\<rparr>))) s)
        = fst (runSecurityAudit (Json (Some v)) s)
   \<and> runAudit (Json None) s = (True, [Ok])
   \<and> runSecurityAudit (Json None) s = (True, [Ok])"
proof -
  have a: "fst (runAudit (Json (Some v)) s)
      \<longleftrightarrow> \<not> (0 < orZero (critical v) \<or> 0 < orZero (high v))" for v
    by (simp add: runAudit_def Let_def)
  have b: "fst (runSecurityAudit (Json (Some v)) s)
      \<longleftrightarrow> \<not> (0 < orZero (critical v) \<or> 0 < orZero (high v))" for v
    by (simp add: runSecurityAudit_def Let_def)
  have c: "last (snd (runAudit (Json (Some v)) s)) = Fail
        \<and> last (snd (runSecurityAudit (Json (Some v)) s)) = Fail"
    if "0 < orZero (critical v) \<or> 0 < orZero (high v)"
    using that by (simp add: runAudit_def runSecurityAudit_def Let_def)
  have d: "runAudit (Json (Some v)) s = (True, [Warn, Warn])
        \<and> runSecurityAudit (Json (Some v)) s = (True, [Warn, Warn])"
    if "\<not> 0 < orZero (critical v)" "\<not> 0 < orZero (high v)" "0 < orZero (moderate v)"
    using that by (simp add: runAudit_def runSecurityAudit_def Let_def severityLines_def)
  have e: "runAudit (Json (Some v)) s = (True, [Ok])
        \<and> runSecurityAudit (Json (Some v)) s = (True, [Ok])"
    if "\<not> 0 < orZero (critical v)" "\<not> 0 < orZero (high v)" "\<not> 0 < orZero (moderate v)"
    using that by (simp add: runAudit_def runSecurityAudit_def Let_def severityLines_def)
  have f: "fst (runAudit (Json (Some (v\<lparr>low := l, info := i\<rparr>))) s)
        = fst (runAudit (Json (Some v)) s)"
    by (simp add: a)
  have g: "fst (runSecurityAudit (Json (Some (v\<lparr>low := l, info := i\<rparr>))) s)
        = fst (runSecurityAudit (Json (Some v)) s)"
    by (simp add: b)
  have h: "runAudit (Json None) s = (True, [Ok])" "runSecurityAudit (Json None) s = (True, [Ok])"
    by (simp_all add: runAudit_def runSecurityAudit_def Let_def severityLines_def
        emptyVulnerabilities_def orZero_def)
  from a[of v] b[of v] c d e f g h show ?thesis by blast
qed

theorem audit_policy_witness:
  "0 < orZero (high (vulnerabilitiesOf 0 1 4 7 2))
   \<and> \<not> fst (runAudit (Json (Some (vulnerabilitiesOf 0 1 4 7 2))) True)
   \<and> \<not> 0 < orZero (critical (vulnerabilitiesOf 0 0 3 9 9))
   \<and> \<not> 0 < orZero (high (vulnerabilitiesOf 0 0 3 9 9))
   \<and> 0 < orZero (moderate (vulnerabilitiesOf 0 0 3 9 9))
   \<and> runAudit (Json (Some (vulnerabilitiesOf 0 0 3 9 9))) True = (True, [Warn, Warn])
   \<and> \<not> 0 < orZero (moderate (vulnerabilitiesOf 0 0 0 9 9))
   \<and> runAudit (Json (Some (vulnerabilitiesOf 0 0 0 9 9))) True = (True, [Ok])"
  using audit_policy[of "vulnerabilitiesOf 0 1 4 7 2" True]
    audit_policy[of "vulnerabilitiesOf 0 0 3 9 9" True]
    audit_policy[of "vulnerabilitiesOf 0 0 0 9 9" True]
  by (simp add: vulnerabilitiesOf_def orZero_def)

section \<open>Properties of the configuration check\<close>

lemma js_includes_iff: "js_includes content key \<longleftrightarrow> (\<exists>a b. content = a @ key @ b)"
proof (induction content)
  case Nil
  show ?case by auto
next
  case (Cons c cs)
  show ?case
  proof
    assume "js_includes (c # cs) key"
    then consider "prefix key (c # cs)" | "js_includes cs key" by auto
    then show "\<exists>a b. c # cs = a @ key @ b"
    proof cases
      case 1
      then obtain b where "c # cs = key @ b" by (auto simp: prefix_def)
      then have "c # cs = [] @ key @ b" by simp
      then show ?thesis by blast
    next
      case 2
      with Cons.IH obtain a b where "cs = a @ key @ b" by auto
      then have "c # cs = (c # a) @ key @ b" by simp
      then show ?thesis by blast
    qed
  next
    assume "\<exists>a b. c # cs = a @ key @ b"
    then obtain a b where e: "c # cs = a @ key @ b" by auto
    show "js_includes (c # cs) key"
    proof (cases a)
      case Nil
      with e have "prefix key (c # cs)" by (simp add: prefix_def)
      then show ?thesis by simp
    next
      case (Cons x a')
      with e have "cs = a' @ key @ b" by simp
      with Cons.IH show ?thesis by auto
    qed
  qed
qed

lemma requiredLoop_fst:
  "fst (requiredLoop content ss allGood)
     \<longleftrightarrow> allGood \<and> list_all (\<lambda>s. js_includes content (settingKey s)) ss"
  by (induction ss arbitrary: allGood) (simp_all add: case_prod_unfold)

lemma verifyNpmrc_fst:
  "fst (verifyNpmrc (Some content)) \<longleftrightarrow>
     js_includes content ''ignore-scripts'' \<and> js_includes content ''audit-level''
     \<and> js_includes content ''package-lock'' \<and> js_includes content ''strict-ssl''"
proof -
  have "fst (verifyNpmrc (Some content)) = fst (requiredLoop content required True)"
    by (simp add: verifyNpmrc_def case_prod_unfold)
  then show ?thesis
    by (simp add: requiredLoop_fst required_def settingKey_def)
qed

lemma verifyNpmrcConfiguration_fst:
  "fst (verifyNpmrcConfiguration (Some content)) \<longleftrightarrow>
     js_includes content ''audit-level''
     \<and> js_includes content ''package-lock'' \<and> js_includes content ''strict-ssl''"
proof -
  have "fst (verifyNpmrcConfiguration (Some content))
      = fst (requiredLoop content requiredSettings True)"
    by (simp add: verifyNpmrcConfiguration_def case_prod_unfold)
  then show ?thesis
    by (simp add: requiredLoop_fst requiredSettings_def settingKey_def)
qed

lemma npmrcV1_keys:
  "\<not> js_includes npmrcV1 ''ignore-scripts''"
  "js_includes npmrcV1 ''audit-level''"
  "js_includes npmrcV1 ''package-lock''"
  "js_includes npmrcV1 ''strict-ssl''"
  by code_simp+

text \<open>
  C7, as stated, fails for \<open>verifyNpmrcConfiguration\<close> of \<open>scripts/verify-packages.js\<close>:
  its required settings do not include script-execution blocking, so a file that never
  mentions \<open>ignore-scripts\<close> passes it (and fails \<open>verifyNpmrc\<close>).
\<close>

theorem legacy_check_passes_without_ignore_scripts:
  "\<not> js_includes npmrcV1 ''ignore-scripts''
   \<and> fst (verifyNpmrcConfiguration (Some npmrcV1))
   \<and> \<not> fst (verifyNpmrc (Some npmrcV1))"
  by (simp only: verifyNpmrc_fst verifyNpmrcConfiguration_fst npmrcV1_keys simp_thms)

text \<open>
  C7, amended. An absent configuration file passes both configuration checks. A present
  file passes \<open>verifyNpmrc\<close> exactly when each of the keys \<open>ignore-scripts\<close>,
  \<open>audit-level\<close>, \<open>package-lock\<close> and \<open>strict-ssl\<close> occurs in its text as a substring,
  and passes \<open>verifyNpmrcConfiguration\<close> exactly when each of \<open>audit-level\<close>,
  \<open>package-lock\<close> and \<open>strict-ssl\<close> does; nothing else in the file (recommended
  settings, values) enters the result.
\<close>

theorem required_keys_decide_configuration_check:
  "verifyNpmrc None = (True, [Warn])
   \<and> verifyNpmrcConfiguration None = (True, [Warn, Warn])
   \<and> (fst (verifyNpmrc (Some content)) \<longleftrightarrow>
        js_includes content ''ignore-scripts'' \<and> js_includes content ''audit-level''
        \<and> js_includes content ''package-lock'' \<and> js_includes content ''strict-ssl'')
   \<and> (fst (verifyNpmrcConfiguration (Some content)) \<longleftrightarrow>
        js_includes content ''audit-level''
        \<and> js_includes content ''package-lock'' \<and> js_includes content ''strict-ssl'')
   \<and> (\<forall>key. js_includes content key \<longleftrightarrow> (\<exists>a b. content = a @ key @ b))"
proof -
  have "verifyNpmrc None = (True, [Warn])" by (simp add: verifyNpmrc_def)
  moreover have "verifyNpmrcConfiguration None = (True, [Warn, Warn])"
    by (simp add: verifyNpmrcConfiguration_def)
  ultimately show ?thesis
    using verifyNpmrc_fst[of content] verifyNpmrcConfiguration_fst[of content]
      js_includes_iff[of content]
    by blast
qed

theorem required_keys_decide_configuration_check_witness:
  "fst (verifyNpmrc (Some npmrcV2)) \<and> fst (verifyNpmrcConfiguration (Some npmrcV2))
   \<and> \<not> fst (verifyNpmrc (Some npmrcV1)) \<and> verifyNpmrc None = (True, [Warn])"
proof -
  have k: "js_includes npmrcV2 ''ignore-scripts''" "js_includes npmrcV2 ''audit-level''"
    "js_includes npmrcV2 ''package-lock''" "js_includes npmrcV2 ''strict-ssl''"
    by code_simp+
  show ?thesis
    using required_keys_decide_configuration_check[of npmrcV2]
      required_keys_decide_configuration_check[of npmrcV1] k npmrcV1_keys
    by simp
qed

section \<open>Properties of the trust-policy check and of the verifier's main\<close>

lemma verify_main_exit:
  "fst (verify_main env) =
     Exit (if fst (verifyNpmrc (npmrcFile env)) \<and> fst (verifyIntegrity (lockFile env))
              \<and> fst (runAudit (auditOutput env) (auditStandardOk env))
              \<and> fst (verifySignatures (npmVersion env) (signaturesOk env))
              \<and> fst (verifyTrustedPackages (trustFile env) (clock env) (dateOf env))
           then 0 else 1)"
  by (simp add: verify_main_def verify_checks_def exitCode_def)




text \<open>
  C9. The verifier exits with 0 when all its check results are true and with 1
  otherwise, and its report is the reports of all its checks, one after the other,
  followed by the summary, whatever the results of the checks are: five checks in the
  five-check verifier, four in \<open>scripts/verify-packages.js\<close>.
\<close>

theorem overall_verdict_is_conjunction:
  "fst (verify_main env) =
     Exit (if fst (verifyNpmrc (npmrcFile env)) \<and> fst (verifyIntegrity (lockFile env))
              \<and> fst (runAudit (auditOutput env) (auditStandardOk env))
              \<and> fst (verifySignatures (npmVersion env) (signaturesOk env))
              \<and> fst (verifyTrustedPackages (trustFile env) (clock env) (dateOf env))
           then 0 else 1)
   \<and> snd (verify_main env) =
       snd (verifyNpmrc (npmrcFile env)) @ snd (verifyIntegrity (lockFile env))
       @ snd (runAudit (auditOutput env) (auditStandardOk env))
       @ snd (verifySignatures (npmVersion env) (signaturesOk env))
       @ snd (verifyTrustedPackages (trustFile env) (clock env) (dateOf env))
       @ summary [fst (verifyNpmrc (npmrcFile env)), fst (verifyIntegrity (lockFile env)),
                  fst (runAudit (auditOutput env) (auditStandardOk env)),
                  fst (verifySignatures (npmVersion env) (signaturesOk env)),
                  fst (verifyTrustedPackages (trustFile env) (clock env) (dateOf env))]
   \<and> fst (verify_packages_main env) =
     Exit (if fst (verifyNpmrcConfiguration (npmrcFile env))
              \<and> fst (verifyPackageLockIntegrity (lockFile env))
              \<and> fst (runSecurityAudit (auditOutput env) (auditStandardOk env))
              \<and> fst (verifySignatureSupport (npmVersion env) (signaturesOk env))
           then 0 else 1)
   \<and> snd (verify_packages_main env) =
       snd (verifyNpmrcConfiguration (npmrcFile env))
       @ snd (verifyPackageLockIntegrity (lockFile env))
       @ snd (runSecurityAudit (auditOutput env) (auditStandardOk env))
       @ snd (verifySignatureSupport (npmVersion env) (signaturesOk env))
       @ summary [fst (verifyPackageLockIntegrity (lockFile env)),
                  fst (runSecurityAudit (auditOutput env) (auditStandardOk env)),
                  fst (verifySignatureSupport (npmVersion env) (signaturesOk env)),
                  fst (verifyNpmrcConfiguration (npmrcFile env))]"
proof -
  have "snd (verify_main env) =
       snd (verifyNpmrc (npmrcFile env)) @ snd (verifyIntegrity (lockFile env))
       @ snd (runAudit (auditOutput env) (auditStandardOk env))
       @ snd (verifySignatures (npmVersion env) (signaturesOk env))
       @ snd (verifyTrustedPackages (trustFile env) (clock env) (dateOf env))
       @ summary [fst (verifyNpmrc (npmrcFile env)), fst (verifyIntegrity (lockFile env)),
                  fst (runAudit (auditOutput env) (auditStandardOk env)),
                  fst (verifySignatures (npmVersion env) (signaturesOk env)),
                  fst (verifyTrustedPackages (trustFile env) (clock env) (dateOf env))]"
    by (simp add: verify_main_def verify_checks_def)
  moreover have "fst (verify_packages_main env) =
     Exit (if fst (verifyNpmrcConfiguration (npmrcFile env))
              \<and> fst (verifyPackageLockIntegrity (lockFile env))
              \<and> fst (runSecurityAudit (auditOutput env) (auditStandardOk env))
              \<and> fst (verifySignatureSupport (npmVersion env) (signaturesOk env))
           then 0 else 1)"
    by (auto simp: verify_packages_main_def Let_def exitCode_def)
  moreover have "snd (verify_packages_main env) =
       snd (verifyNpmrcConfiguration (npmrcFile env))
       @ snd (verifyPackageLockIntegrity (lockFile env))
       @ snd (runSecurityAudit (auditOutput env) (auditStandardOk env))
       @ snd (verifySignatureSupport (npmVersion env) (signaturesOk env))
       @ summary [fst (verifyPackageLockIntegrity (lockFile env)),
                  fst (runSecurityAudit (auditOutput env) (auditStandardOk env)),
                  fst (verifySignatureSupport (npmVersion env) (signaturesOk env)),
                  fst (verifyNpmrcConfiguration (npmrcFile env))]"
    by (simp add: verify_packages_main_def Let_def)
  ultimately show ?thesis
    using verify_main_exit[of env] by simp
qed

theorem overall_verdict_is_conjunction_witness:
  "lockFile env0 = Absent
   \<and> verify_main env0 =
       (Exit 1,
        [Ok, Ok, Ok, Ok, Warn, Warn, Warn, Warn] @ [Fail] @ [Ok] @ [Ok, Warn]
        @ [Ok, Warn, Warn, Warn] @ [Ok, Fail, Ok, Ok, Ok, Fail])"
proof -
  have npmrc: "verifyNpmrc (npmrcFile env0) = (True, [Ok, Ok, Ok, Ok, Warn, Warn, Warn, Warn])"
    by code_simp
  have integrity: "verifyIntegrity (lockFile env0) = (False, [Fail])"
    by (simp add: env0_def verifyIntegrity_def)
  have audit: "runAudit (auditOutput env0) (auditStandardOk env0) = (True, [Ok])"
    by code_simp
  have signatures: "verifySignatures (npmVersion env0) (signaturesOk env0) = (True, [Ok, Warn])"
    by code_simp
  have trusted: "verifyTrustedPackages (trustFile env0) (clock env0) (dateOf env0)
      = (True, [Ok, Warn, Warn, Warn])"
    by code_simp
  have "fst (verify_main env0) = Exit 1"
    using overall_verdict_is_conjunction[of env0]
    by (simp add: npmrc integrity audit signatures trusted)
  moreover have "snd (verify_main env0) =
        [Ok, Ok, Ok, Ok, Warn, Warn, Warn, Warn] @ [Fail] @ [Ok] @ [Ok, Warn]
        @ [Ok, Warn, Warn, Warn] @ [Ok, Fail, Ok, Ok, Ok, Fail]"
    using overall_verdict_is_conjunction[of env0]
    by (simp add: npmrc integrity audit signatures trusted summary_def)
  moreover have "lockFile env0 = Absent" by (simp add: env0_def)
  ultimately show ?thesis by (simp add: prod_eq_iff)
qed

end
